theory Spec2Isabelle
  imports Main "HOL-Library.Multiset"
begin

section \<open>Data model of the conversation/message service\<close>

text \<open>
  The service of \<^verbatim>\<open>src/unnamed/part_000\<close> (the backend conversation library) works on
  two mongoose collections, \<^verbatim>\<open>ChatConversation\<close> and \<^verbatim>\<open>ChatMessage\<close>, and on
  pub/sub topics. A collection is a list of documents, a document is a record, and the
  object \<^verbatim>\<open>numOfReadedMessage\<close> is an association list from \<^verbatim>\<open>String(userId)\<close> to a
  count.
\<close>

datatype error =
    TypeError
  | ConfigurationError string
  | StoreError
  | ObjectIdError
  | CastError

subsection \<open>Object ids\<close>

text \<open>
  An \<^verbatim>\<open>ObjectId\<close> is twelve bytes. It is represented by its canonical text, the 24
  lower-case hexadecimal digits that \<^verbatim>\<open>String(id)\<close> prints, so two ids are equal exactly
  when their bytes are. The constructor \<^verbatim>\<open>new ObjectId(x)\<close>, for a text \<open>x\<close>, reads 24
  hexadecimal characters in either letter case, takes a text of 12 characters as the
  bytes themselves, and throws for any other text.
\<close>

datatype objectId = ObjectId string

text \<open>The character class \<^verbatim>\<open>[a-fA-F0-9]\<close>.\<close>

definition is_hex :: "char \<Rightarrow> bool" where
  "is_hex c = (c \<in> set ''abcdefABCDEF0123456789'')"

definition lower_hex :: "char \<Rightarrow> char" where
  "lower_hex c =
     (if c = CHR ''A'' then CHR ''a'' else if c = CHR ''B'' then CHR ''b''
      else if c = CHR ''C'' then CHR ''c'' else if c = CHR ''D'' then CHR ''d''
      else if c = CHR ''E'' then CHR ''e'' else if c = CHR ''F'' then CHR ''f'' else c)"

definition hex_digit :: "nat \<Rightarrow> char" where
  "hex_digit n = ''0123456789abcdef'' ! (n mod 16)"

definition hex_of_char :: "char \<Rightarrow> string" where
  "hex_of_char c = [hex_digit ((of_char c :: nat) div 16), hex_digit (of_char c :: nat)]"

definition new_ObjectId :: "string \<Rightarrow> error + objectId" where
  "new_ObjectId x =
     (if length x = 24 \<and> list_all is_hex x then Inr (ObjectId (map lower_hex x))
      else if length x = 12 then Inr (ObjectId (concat (map hex_of_char x)))
      else Inl ObjectIdError)"

text \<open>
  \<^verbatim>\<open>ensureObjectId\<close>; the ids are handed to the service as texts, for which it calls the
  constructor.
\<close>

definition ensureObjectId :: "string \<Rightarrow> error + objectId" where
  "ensureObjectId x = new_ObjectId x"

text \<open>\<^verbatim>\<open>Array.prototype.map\<close> with a function that may throw: the first throw ends it.\<close>

fun map_throwing :: "('a \<Rightarrow> error + 'b) \<Rightarrow> 'a list \<Rightarrow> error + 'b list" where
  "map_throwing f [] = Inr []"
| "map_throwing f (x # xs) =
     (case f x of
        Inl e \<Rightarrow> Inl e
      | Inr y \<Rightarrow> (case map_throwing f xs of Inl e \<Rightarrow> Inl e | Inr ys \<Rightarrow> Inr (y # ys)))"

subsection \<open>Documents\<close>

record message =
  channel :: string
  creator :: string
  msg_text :: "string option"
  user_mentions :: "objectId list"
  msg_moderate :: bool
  creation :: int

record topic_doc =
  topic_value :: "string option"
  topic_creator :: "string option"
  topic_last_set :: "int option"

record last_message_doc =
  lm_text :: "string option"
  lm_date :: int
  lm_creator :: "string option"
  lm_user_mentions :: "objectId list"

record conversation =
  cid :: string
  ctype :: string
  cname :: "string option"
  avatar :: "objectId option"
  moderate :: bool
  members :: "objectId list"
  topic :: topic_doc
  last_message :: last_message_doc
  numOfMessage :: int
  numOfReadedMessage :: "(string \<times> int) list"

text \<open>The synthetic system message of a topic change.\<close>

record topic_message =
  tm_type :: string
  tm_subtype :: string
  tm_date :: int
  tm_channel :: string
  tm_user :: string
  tm_topic :: topic_doc
  tm_text :: string

text \<open>What is published, one constructor for each pub/sub topic of the service.\<close>

datatype event =
    ConversationUpdate conversation "string list option"
  | ChannelDeletion "conversation option"
  | MemberAdded conversation
  | TopicUpdated topic_message

text \<open>
  The state the service works on: the two collections, the payloads published so far,
  the lines written by \<^verbatim>\<open>logger.error\<close>, and the number of calls made to the store.
\<close>

record store =
  conversations :: "conversation list"
  messages :: "message list"
  published :: "event list"
  logged :: "string list"
  calls :: nat

section \<open>Mention extraction\<close>

text \<open>Whether \<^verbatim>\<open>/@[a-fA-F0-9]{24}/\<close> matches at the very start of the text.\<close>

fun mention_at :: "string \<Rightarrow> bool" where
  "mention_at [] = False"
| "mention_at (c # cs) = (c = CHR ''@'' \<and> 24 \<le> length cs \<and> list_all is_hex (take 24 cs))"

text \<open>
  The successive matches of the global regular expression, left to right: after a match
  the scan goes on behind it, otherwise one character further.
\<close>

function match_all :: "string \<Rightarrow> string list" where
  "match_all [] = []"
| "match_all (c # cs) =
     (if mention_at (c # cs) then (c # take 24 cs) # match_all (drop 24 cs)
      else match_all cs)"
  by pat_completeness auto
termination
  by (relation "measure length") auto

text \<open>\<^verbatim>\<open>String.prototype.match\<close> with the \<^verbatim>\<open>g\<close> flag: \<^verbatim>\<open>null\<close> when nothing matches.\<close>

definition str_match :: "string \<Rightarrow> string list option" where
  "str_match t = (if match_all t = [] then None else Some (match_all t))"

text \<open>
  lodash's \<^verbatim>\<open>_.uniq\<close>: an empty array for \<^verbatim>\<open>null\<close>, otherwise the loop of
  \<^verbatim>\<open>baseUniq\<close>, which pushes a value on the result unless the result has it already.
\<close>

fun baseUniq :: "'a list \<Rightarrow> 'a list \<Rightarrow> 'a list" where
  "baseUniq result [] = result"
| "baseUniq result (x # xs) =
     (if x \<in> set result then baseUniq result xs else baseUniq (result @ [x]) xs)"

fun uniq :: "'a list option \<Rightarrow> 'a list" where
  "uniq None = []"
| "uniq (Some xs) = baseUniq [] xs"

text \<open>\<^verbatim>\<open>mention.replace(/^@/, '')\<close>.\<close>

fun strip_at :: "string \<Rightarrow> string" where
  "strip_at [] = []"
| "strip_at (c # cs) = (if c = CHR ''@'' then cs else c # cs)"

definition mentions_of :: "string \<Rightarrow> error + objectId list" where
  "mentions_of t =
     map_throwing (\<lambda>mention. new_ObjectId (strip_at mention)) (uniq (str_match t))"

text \<open>
  \<^verbatim>\<open>parseMention\<close> overwrites \<^verbatim>\<open>message.user_mentions\<close>; a message without a text
  makes \<^verbatim>\<open>message.text.match\<close> throw a TypeError.
\<close>

definition parseMention :: "message \<Rightarrow> error + message" where
  "parseMention m =
     (case msg_text m of
        None \<Rightarrow> Inl TypeError
      | Some t \<Rightarrow>
          (case mentions_of t of
             Inl e \<Rightarrow> Inl e
           | Inr ids \<Rightarrow> Inr (m\<lparr>user_mentions := ids\<rparr>)))"

section \<open>The store\<close>

text \<open>
  The mongoose calls the service makes. Each one takes a flag that says whether the
  driver reports an error for this call (the \<^verbatim>\<open>err\<close> of the callback); a call that
  fails changes nothing. \<^verbatim>\<open>findOneAndUpdate\<close> and \<^verbatim>\<open>findByIdAndUpdate\<close> update the first
  matching document and hand the callback the document as it was \<^emph>\<open>before\<close> the
  update, unless the option \<^verbatim>\<open>{new: true}\<close> is given, as \<^verbatim>\<open>moderateConversation\<close> does.
\<close>

definition called :: "store \<Rightarrow> store" where
  "called s = s\<lparr>calls := Suc (calls s)\<rparr>"

definition publish :: "event \<Rightarrow> store \<Rightarrow> store" where
  "publish e s = s\<lparr>published := published s @ [e]\<rparr>"

fun update_first :: "('a \<Rightarrow> bool) \<Rightarrow> ('a \<Rightarrow> 'a) \<Rightarrow> 'a list \<Rightarrow> 'a list" where
  "update_first P f [] = []"
| "update_first P f (x # xs) = (if P x then f x # xs else x # update_first P f xs)"

fun remove_first :: "('a \<Rightarrow> bool) \<Rightarrow> 'a list \<Rightarrow> 'a list" where
  "remove_first P [] = []"
| "remove_first P (x # xs) = (if P x then xs else x # remove_first P xs)"

definition findOneAndUpdate ::
  "bool \<Rightarrow> (conversation \<Rightarrow> bool) \<Rightarrow> (conversation \<Rightarrow> conversation) \<Rightarrow> bool \<Rightarrow> store
     \<Rightarrow> (error + conversation option) \<times> store" where
  "findOneAndUpdate err P upd new s =
     (if err then (Inl StoreError, called s)
      else case find P (conversations s) of
             None \<Rightarrow> (Inr None, called s)
           | Some c \<Rightarrow>
               (Inr (Some (if new then upd c else c)),
                called (s\<lparr>conversations := update_first P upd (conversations s)\<rparr>)))"

definition findByIdAndUpdate ::
  "bool \<Rightarrow> string \<Rightarrow> (conversation \<Rightarrow> conversation) \<Rightarrow> bool \<Rightarrow> store
     \<Rightarrow> (error + conversation option) \<times> store" where
  "findByIdAndUpdate err conversationId upd new s =
     findOneAndUpdate err (\<lambda>c. cid c = conversationId) upd new s"

definition findById :: "string \<Rightarrow> store \<Rightarrow> conversation option" where
  "findById conversationId s = find (\<lambda>c. cid c = conversationId) (conversations s)"

subsection \<open>Update operators\<close>

text \<open>\<^verbatim>\<open>$max\<close> on one field of \<^verbatim>\<open>numOfReadedMessage\<close>: a missing field is set.\<close>

fun mongo_max :: "string \<Rightarrow> int \<Rightarrow> (string \<times> int) list \<Rightarrow> (string \<times> int) list" where
  "mongo_max k v [] = [(k, v)]"
| "mongo_max k v ((k', v') # al) =
     (if k' = k then (k', max v' v) # al else (k', v') # mongo_max k v al)"

definition max_numOfReadedMessage :: "string list \<Rightarrow> int \<Rightarrow> conversation \<Rightarrow> conversation" where
  "max_numOfReadedMessage keys n c =
     c\<lparr>numOfReadedMessage := fold (\<lambda>k. mongo_max k n) keys (numOfReadedMessage c)\<rparr>"

text \<open>\<^verbatim>\<open>$addToSet\<close> with \<^verbatim>\<open>$each\<close>, and \<^verbatim>\<open>$pullAll\<close>, on \<^verbatim>\<open>members\<close>.\<close>

definition addToSet_each :: "'a list \<Rightarrow> 'a list \<Rightarrow> 'a list" where
  "addToSet_each xs ms = fold (\<lambda>x acc. if x \<in> set acc then acc else acc @ [x]) xs ms"

definition pullAll :: "'a list \<Rightarrow> 'a list \<Rightarrow> 'a list" where
  "pullAll ys ms = filter (\<lambda>m. m \<notin> set ys) ms"

section \<open>Read counters\<close>

text \<open>
  The first argument of \<^verbatim>\<open>makeAllMessageReadedForAnUserHelper\<close> as JavaScript sees it:
  an array of ids, one id, or \<^verbatim>\<open>undefined\<close>. Whatever is not an array is wrapped in one,
  and \<^verbatim>\<open>String(undefined)\<close> is the text \<^verbatim>\<open>undefined\<close>.
\<close>

datatype userIds = Undefined | One string | Many "string list"

fun max_keys :: "userIds \<Rightarrow> string list" where
  "max_keys (Many us) = us"
| "max_keys (One u) = [u]"
| "max_keys Undefined = [''undefined'']"

definition makeAllMessageReadedForAnUserHelper ::
  "bool \<Rightarrow> userIds \<Rightarrow> conversation option \<Rightarrow> store \<Rightarrow> (error + conversation option) \<times> store" where
  "makeAllMessageReadedForAnUserHelper err userIds conversation s =
     (case conversation of
        None \<Rightarrow> (Inl TypeError, s)
      | Some c \<Rightarrow>
          findByIdAndUpdate err (cid c)
            (max_numOfReadedMessage (max_keys userIds) (numOfMessage c)) False s)"

definition makeAllMessageReadedForAnUser ::
  "bool \<Rightarrow> bool \<Rightarrow> userIds \<Rightarrow> string \<Rightarrow> store \<Rightarrow> (error + conversation option) \<times> store" where
  "makeAllMessageReadedForAnUser findErr maxErr userId conversationId s =
     (if findErr then (Inl StoreError, called s)
      else makeAllMessageReadedForAnUserHelper maxErr userId (findById conversationId s) (called s))"

section \<open>Messages\<close>

definition set_last_message_inc :: "message \<Rightarrow> conversation \<Rightarrow> conversation" where
  "set_last_message_inc m c =
     c\<lparr>last_message :=
         \<lparr>lm_text = msg_text m, lm_date = creation m, lm_creator = Some (creator m),
          lm_user_mentions = user_mentions m\<rparr>,
       numOfMessage := numOfMessage c + 1\<rparr>"

text \<open>
  \<^verbatim>\<open>createMessage\<close>: the steps of the waterfall. An error of the conversation update is
  logged and the waterfall goes on with no conversation; the populated message is the
  message itself, the users' collection not being part of the model.
\<close>

definition createMessage ::
  "bool \<Rightarrow> bool \<Rightarrow> bool \<Rightarrow> bool \<Rightarrow> message \<Rightarrow> store \<Rightarrow> (error + message) \<times> store" where
  "createMessage saveErr updateErr maxErr populateErr message s =
     (case parseMention message of
        Inl e \<Rightarrow> (Inl e, s)
      | Inr chatMessage \<Rightarrow>
          if saveErr then (Inl StoreError, called s)
          else
            let s1 = called (s\<lparr>messages := messages s @ [chatMessage]\<rparr>);
                (r, s2) = findByIdAndUpdate updateErr (channel chatMessage)
                            (set_last_message_inc chatMessage) False s1;
                (conversation, s3) =
                  (case r of
                     Inl e \<Rightarrow>
                       (None, s2\<lparr>logged := logged s2 @ [''Can not update channel with last_update'']\<rparr>)
                   | Inr c \<Rightarrow> (c, s2));
                (r', s4) = makeAllMessageReadedForAnUserHelper maxErr (One (creator chatMessage))
                             conversation s3
            in case r' of
                 Inl e \<Rightarrow> (Inl e, s4)
               | Inr _ \<Rightarrow>
                   if populateErr then (Inl StoreError, called s4)
                   else (Inr chatMessage, called s4))"

text \<open>
  \<^verbatim>\<open>getMessages\<close>. The conversation is a document or an id, the query may be missing;
  \<^verbatim>\<open>+query.limit || 20\<close> and \<^verbatim>\<open>+query.offset || 0\<close> replace a missing or zero value. The
  filter the store receives is \<^verbatim>\<open>{channel: conversationId, moderate: false}\<close>.
\<close>

datatype conversationRef = ConversationDoc conversation | ConversationId string

record message_query =
  q_moderate :: bool
  q_limit :: "nat option"
  q_offset :: "nat option"

definition limit_of :: "message_query \<Rightarrow> nat" where
  "limit_of query = (case q_limit query of None \<Rightarrow> 20 | Some n \<Rightarrow> if n = 0 then 20 else n)"

definition offset_of :: "message_query \<Rightarrow> nat" where
  "offset_of query = (case q_offset query of None \<Rightarrow> 0 | Some n \<Rightarrow> n)"

definition getMessages ::
  "bool \<Rightarrow> conversationRef \<Rightarrow> message_query option \<Rightarrow> store \<Rightarrow> (error + message list) \<times> store" where
  "getMessages err conversation query0 s =
     (let query1 = (case query0 of
                      None \<Rightarrow> \<lparr>q_moderate = False, q_limit = None, q_offset = None\<rparr>
                    | Some q \<Rightarrow> q);
          query = (if \<not> q_moderate query1 then query1\<lparr>q_moderate := False\<rparr> else query1);
          conversationId = (case conversation of ConversationDoc c \<Rightarrow> cid c | ConversationId i \<Rightarrow> i);
          q = (\<lambda>m. channel m = conversationId \<and> msg_moderate m = False)
      in if err then (Inl StoreError, called s)
         else (Inr (rev (take (limit_of query) (drop (offset_of query)
                      (sort_key (\<lambda>m. - creation m) (filter q (messages s)))))),
               called s))"

section \<open>Conversations\<close>

text \<open>
  \<^verbatim>\<open>deleteConversation\<close>. The filter is \<^verbatim>\<open>{_id: channel, members: userId}\<close>; mongoose
  casts the user id of the filter to an ObjectId, and a text that is no id makes the query
  fail with a cast error, handed to the callback before the store is called.
\<close>

definition deleteConversation ::
  "bool \<Rightarrow> bool \<Rightarrow> string \<Rightarrow> string \<Rightarrow> store \<Rightarrow> (error + conversation option) \<times> store" where
  "deleteConversation removeErr messagesErr userId chan s =
     (case new_ObjectId userId of
        Inl e \<Rightarrow> (Inl CastError, s)
      | Inr member \<Rightarrow>
          if removeErr then (Inl StoreError, called s)
          else
            let P = (\<lambda>c. cid c = chan \<and> member \<in> set (members c));
                deleteResult = find P (conversations s);
                s1 = called (s\<lparr>conversations := remove_first P (conversations s)\<rparr>);
                s2 = publish (ChannelDeletion deleteResult) s1
            in if messagesErr then (Inl StoreError, called s2)
               else (Inr deleteResult,
                     called (s2\<lparr>messages := filter (\<lambda>m. channel m \<noteq> chan) (messages s2)\<rparr>)))"

definition addMemberToConversation ::
  "bool \<Rightarrow> bool \<Rightarrow> string \<Rightarrow> string \<Rightarrow> store \<Rightarrow> (error + conversation option) \<times> store" where
  "addMemberToConversation updateErr maxErr conversationId userId s =
     (case ensureObjectId userId of
        Inl e \<Rightarrow> (Inl e, s)
      | Inr userObjectId \<Rightarrow>
          (case findByIdAndUpdate updateErr conversationId
                  (\<lambda>c. c\<lparr>members := addToSet_each [userObjectId] (members c)\<rparr>) False s of
             (Inl e, s1) \<Rightarrow> (Inl e, s1)
           | (Inr None, s1) \<Rightarrow> (Inl TypeError, s1)
           | (Inr (Some c), s1) \<Rightarrow>
               (let (r, s2) = makeAllMessageReadedForAnUserHelper maxErr (One userId) (Some c) s1
                in (r, publish (MemberAdded c) s2))))"

text \<open>\<^verbatim>\<open>moderateConversation\<close> asks for the updated document.\<close>

definition moderateConversation ::
  "bool \<Rightarrow> string \<Rightarrow> bool \<Rightarrow> store \<Rightarrow> (error + conversation option) \<times> store" where
  "moderateConversation err conversationId m s =
     findByIdAndUpdate err conversationId (\<lambda>c. c\<lparr>moderate := m\<rparr>) True s"

text \<open>\<^verbatim>\<open>String(x)\<close> of a field that may be \<^verbatim>\<open>undefined\<close>.\<close>

fun js_String :: "string option \<Rightarrow> string" where
  "js_String None = ''undefined''"
| "js_String (Some x) = x"

text \<open>
  \<^verbatim>\<open>updateTopic\<close>. The callback does not look at \<^verbatim>\<open>err\<close> before it reads
  \<^verbatim>\<open>conversation._id\<close>, so a failed update and an unknown id both end in a TypeError.
  The date of the message is \<^verbatim>\<open>Date.now()\<close>, a parameter here.
\<close>

definition updateTopic ::
  "bool \<Rightarrow> int \<Rightarrow> string \<Rightarrow> topic_doc \<Rightarrow> store \<Rightarrow> (error + conversation) \<times> store" where
  "updateTopic err now conversationId tp s =
     (case findByIdAndUpdate err conversationId
             (\<lambda>c. c\<lparr>topic := \<lparr>topic_value = topic_value tp, topic_creator = topic_creator tp,
                               topic_last_set = topic_last_set tp\<rparr>\<rparr>) False s of
        (Inl e, s1) \<Rightarrow> (Inl TypeError, s1)
      | (Inr None, s1) \<Rightarrow> (Inl TypeError, s1)
      | (Inr (Some conversation), s1) \<Rightarrow>
          (Inr conversation,
           publish (TopicUpdated
             \<lparr>tm_type = ''text'', tm_subtype = ''channel:topic'', tm_date = now,
              tm_channel = cid conversation, tm_user = js_String (topic_creator tp),
              tm_topic = \<lparr>topic_value = topic_value (topic conversation),
                          topic_creator = Some (js_String (topic_creator (topic conversation))),
                          topic_last_set = topic_last_set (topic conversation)\<rparr>,
              tm_text = ''set the channel topic: '' @ js_String (topic_value tp)\<rparr>) s1))"

subsection \<open>updateConversation\<close>

record modifications =
  newMembers :: "string list option"
  deleteMembers :: "string list option"
  mod_name :: "string option"
  mod_avatar :: "string option"

text \<open>\<^verbatim>\<open>xs && xs.length\<close>, and the truth value of a string.\<close>

fun has_length :: "'a list option \<Rightarrow> bool" where
  "has_length None = False"
| "has_length (Some xs) = (xs \<noteq> [])"

text \<open>
  The ids of \<^verbatim>\<open>newMembers\<close> or \<^verbatim>\<open>deleteMembers\<close>, when the list is there and not empty:
  \<^verbatim>\<open>xs.map(ensureObjectId)\<close>. Likewise the avatar, when there is one:
  \<^verbatim>\<open>new ObjectId(modifications.avatar)\<close>.
\<close>

fun ensure_members :: "string list option \<Rightarrow> error + objectId list option" where
  "ensure_members None = Inr None"
| "ensure_members (Some xs) =
     (if xs = [] then Inr None
      else case map_throwing ensureObjectId xs of
             Inl e \<Rightarrow> Inl e
           | Inr ids \<Rightarrow> Inr (Some ids))"

fun new_avatar :: "string option \<Rightarrow> error + objectId option" where
  "new_avatar None = Inr None"
| "new_avatar (Some a) =
     (if a = [] then Inr None
      else case new_ObjectId a of
             Inl e \<Rightarrow> Inl e
           | Inr i \<Rightarrow> Inr (Some i))"

text \<open>
  The update document: \<^verbatim>\<open>$addToSet.members.$each\<close>, \<^verbatim>\<open>$pullAll.members\<close>, and the two
  fields of \<^verbatim>\<open>$set\<close>; an operator that is not there is \<open>None\<close>.
\<close>

record mongoModifications =
  addToSet :: "objectId list option"
  pullAll_members :: "objectId list option"
  set_name :: "string option"
  set_avatar :: "objectId option"

definition apply_modifications :: "mongoModifications \<Rightarrow> conversation \<Rightarrow> conversation" where
  "apply_modifications md c =
     c\<lparr>members :=
         (case addToSet md of None \<Rightarrow> (\<lambda>ms. ms) | Some xs \<Rightarrow> addToSet_each xs)
           ((case pullAll_members md of None \<Rightarrow> (\<lambda>ms. ms) | Some ys \<Rightarrow> pullAll ys) (members c)),
       cname := (case set_name md of None \<Rightarrow> cname c | Some n \<Rightarrow> Some n),
       avatar := (case set_avatar md of None \<Rightarrow> avatar c | Some a \<Rightarrow> Some a)\<rparr>"

text \<open>
  The inner function \<^verbatim>\<open>done\<close> (here \<open>done_cb\<close>). The ids it hands to the read-counter helper are
  \<^verbatim>\<open>(nextMongoModification || mongoModifications).$addToSet.$each\<close>; the array sits at
  \<^verbatim>\<open>$addToSet.members.$each\<close>, so what the helper receives is \<^verbatim>\<open>undefined\<close>.
\<close>

definition done_cb ::
  "bool \<Rightarrow> bool \<Rightarrow> modifications \<Rightarrow> (error + conversation option) \<Rightarrow> store
     \<Rightarrow> (error + conversation option) \<times> store" where
  "done_cb populateErr maxErr mods r s =
     (case r of
        Inl e \<Rightarrow> (Inl e, s)
      | Inr None \<Rightarrow> (Inl TypeError, s)
      | Inr (Some conversation) \<Rightarrow>
          if populateErr then (Inl StoreError, called s)
          else
            let s1 = publish (ConversationUpdate conversation (deleteMembers mods)) (called s)
            in if has_length (newMembers mods)
               then makeAllMessageReadedForAnUserHelper maxErr Undefined (Some conversation) s1
               else (Inr (Some conversation), s1))"

text \<open>
  \<^verbatim>\<open>updateConversation\<close>. The update document is built first, and a text that is no id
  makes the constructor throw before the store is called.
\<close>

definition updateConversation ::
  "bool \<Rightarrow> bool \<Rightarrow> bool \<Rightarrow> bool \<Rightarrow> string \<Rightarrow> modifications \<Rightarrow> store
     \<Rightarrow> (error + conversation option) \<times> store" where
  "updateConversation firstErr nextErr populateErr maxErr conversationId mods s =
     (case ensure_members (newMembers mods) of
        Inl e \<Rightarrow> (Inl e, s)
      | Inr each \<Rightarrow>
     (case ensure_members (deleteMembers mods) of
        Inl e \<Rightarrow> (Inl e, s)
      | Inr pulled \<Rightarrow>
     (case new_avatar (mod_avatar mods) of
        Inl e \<Rightarrow> (Inl e, s)
      | Inr av \<Rightarrow>
      let mongoModifications0 =
            \<lparr>addToSet = each, pullAll_members = pulled,
             set_name = (if has_length (mod_name mods) then mod_name mods else None),
             set_avatar = av\<rparr>;
          split = (addToSet mongoModifications0 \<noteq> None \<and> pullAll_members mongoModifications0 \<noteq> None);
          nextMongoModification =
            (if split
             then Some \<lparr>addToSet = addToSet mongoModifications0, pullAll_members = None,
                        set_name = None, set_avatar = None\<rparr>
             else None);
          mongoModifications =
            (if split then mongoModifications0\<lparr>addToSet := None\<rparr> else mongoModifications0);
          (r1, s1) = findOneAndUpdate firstErr (\<lambda>c. cid c = conversationId)
                       (apply_modifications mongoModifications) False s
      in case nextMongoModification of
           Some nxt \<Rightarrow>
             (let (r2, s2) = findOneAndUpdate nextErr (\<lambda>c. cid c = conversationId)
                               (apply_modifications nxt) False s1
              in done_cb populateErr maxErr mods r2 s2)
         | None \<Rightarrow> done_cb populateErr maxErr mods r1 s1)))"

subsection \<open>findConversation\<close>

datatype typeArg = TypeStr string | TypeArr "string list"

datatype nameArg = NameUndefined | NameNull | NameStr string

text \<open>
  The options; \<open>None\<close> is a field that is missing (or \<^verbatim>\<open>null\<close>), the flags are the
  truth values of what the caller gave.
\<close>

record options =
  opt_type :: "typeArg option"
  ignoreMemberFilterForChannel :: bool
  exactMembersMatch :: bool
  opt_members :: "string list option"
  opt_name :: nameArg
  opt_moderate :: bool

text \<open>The request object built for \<^verbatim>\<open>Conversation.find\<close>.\<close>

record request =
  req_moderate :: "bool option"
  req_members_all :: "objectId list option"
  req_members_size :: "nat option"
  req_type_in :: "string list option"
  req_name :: "string option"
  req_or_noname :: bool

text \<open>
  Either the request itself, or the one wrapped in
  \<^verbatim>\<open>{$or: [request, {type: CHANNEL}], moderate: moderate}\<close>.
\<close>

datatype find_query = Plain request | OrChannel request string bool

fun type_truthy :: "typeArg option \<Rightarrow> bool" where
  "type_truthy None = False"
| "type_truthy (Some (TypeStr t)) = (t \<noteq> [])"
| "type_truthy (Some (TypeArr ts)) = True"

text \<open>\<^verbatim>\<open>indexOf(x) > -1\<close> on a string looks for a substring, on an array for an element.\<close>

fun str_contains :: "string \<Rightarrow> string \<Rightarrow> bool" where
  "str_contains [] x = (x = [])"
| "str_contains (c # cs) x = (take (length x) (c # cs) = x \<or> str_contains cs x)"

fun type_indexOf :: "typeArg option \<Rightarrow> string \<Rightarrow> bool" where
  "type_indexOf None x = False"
| "type_indexOf (Some (TypeStr t)) x = str_contains t x"
| "type_indexOf (Some (TypeArr ts)) x = (x \<in> set ts)"

text \<open>
  The synchronous part of \<^verbatim>\<open>findConversation\<close>, up to the call of the store. The
  constant \<^verbatim>\<open>CONVERSATION_TYPE.CHANNEL\<close> comes from a module that is not among the
  sources and is a parameter. Writing \<^verbatim>\<open>request.members.$size\<close> into the wrapped
  request, which has no \<^verbatim>\<open>members\<close>, is a TypeError; a member that is no id makes the
  constructor throw.
\<close>

text \<open>\<^verbatim>\<open>members.map(participant => new ObjectId(participant))\<close>, when there are members.\<close>

fun members_all :: "string list option \<Rightarrow> error + objectId list option" where
  "members_all None = Inr None"
| "members_all (Some ms) =
     (case map_throwing new_ObjectId ms of
        Inl e \<Rightarrow> Inl e
      | Inr ids \<Rightarrow> Inr (Some ids))"

definition buildRequest :: "string \<Rightarrow> options \<Rightarrow> error + find_query" where
  "buildRequest CHANNEL opts =
     (if exactMembersMatch opts \<and> opt_members opts = None
      then Inl (ConfigurationError ''Could not set exactMembersMatch to true without providing members'')
      else if ignoreMemberFilterForChannel opts \<and> opt_members opts = None
      then Inl (ConfigurationError ''Could not set ignoreMemberFilterForChannel to true without providing members'')
      else
      case members_all (opt_members opts) of
        Inl e \<Rightarrow> Inl e
      | Inr all_ids \<Rightarrow>
        let request =
              \<lparr>req_moderate = Some (opt_moderate opts),
               req_members_all = all_ids,
               req_members_size = None,
               req_type_in =
                 (case opt_type opts of
                    Some (TypeArr ts) \<Rightarrow> Some ts
                  | Some (TypeStr t) \<Rightarrow> if t \<noteq> [] then Some [t] else None
                  | None \<Rightarrow> None),
               req_name = (case opt_name opts of NameStr n \<Rightarrow> if n \<noteq> [] then Some n else None
                           | _ \<Rightarrow> None),
               req_or_noname = (opt_name opts = NameNull)\<rparr>
        in if ignoreMemberFilterForChannel opts
              \<and> (\<not> type_truthy (opt_type opts) \<or> type_indexOf (opt_type opts) CHANNEL)
           then (if exactMembersMatch opts then Inl TypeError
                 else Inr (OrChannel (request\<lparr>req_moderate := None\<rparr>) CHANNEL (opt_moderate opts)))
           else (if exactMembersMatch opts
                 then (case opt_members opts of
                         None \<Rightarrow> Inl TypeError
                       | Some ms \<Rightarrow> Inr (Plain (request\<lparr>req_members_size := Some (length ms)\<rparr>)))
                 else Inr (Plain request)))"

text \<open>
  Which documents the request selects; \<^verbatim>\<open>$all\<close> with an empty array selects nothing.
\<close>

definition matches_request :: "request \<Rightarrow> conversation \<Rightarrow> bool" where
  "matches_request r c =
     ((case req_moderate r of None \<Rightarrow> True | Some b \<Rightarrow> moderate c = b)
      \<and> (case req_members_all r of
            None \<Rightarrow> True
          | Some ms \<Rightarrow> ms \<noteq> [] \<and> list_all (\<lambda>m. m \<in> set (members c)) ms)
      \<and> (case req_members_size r of None \<Rightarrow> True | Some n \<Rightarrow> length (members c) = n)
      \<and> (case req_type_in r of None \<Rightarrow> True | Some ts \<Rightarrow> ctype c \<in> set ts)
      \<and> (case req_name r of None \<Rightarrow> True | Some n \<Rightarrow> cname c = Some n)
      \<and> (if req_or_noname r then cname c = None else True))"

fun matches_query :: "find_query \<Rightarrow> conversation \<Rightarrow> bool" where
  "matches_query (Plain r) c = matches_request r c"
| "matches_query (OrChannel r ch m) c = ((matches_request r c \<or> ctype c = ch) \<and> moderate c = m)"

definition findConversation ::
  "string \<Rightarrow> bool \<Rightarrow> options \<Rightarrow> store \<Rightarrow> (error + conversation list) \<times> store" where
  "findConversation CHANNEL err opts s =
     (case buildRequest CHANNEL opts of
        Inl e \<Rightarrow> (Inl e, s)
      | Inr request \<Rightarrow>
          if err then (Inl StoreError, called s)
          else (Inr (sort_key (\<lambda>c. - lm_date (last_message c))
                       (filter (matches_query request) (conversations s))),
                called s))"

section \<open>Example documents\<close>

text \<open>
  A small store used to run the operations: one channel \<open>c1\<close> with the single member
  \<open>user_a\<close>, a topic, five messages counted and one message stored.
\<close>

definition user_a :: string where
  "user_a = ''aaaaaaaaaaaaaaaaaaaaaaaa''"

definition user_b :: string where
  "user_b = ''bbbbbbbbbbbbbbbbbbbbbbbb''"

definition conversation0 :: conversation where
  "conversation0 =
     \<lparr>cid = ''c1'', ctype = ''channel'', cname = Some ''general'', avatar = None,
      moderate = False, members = [ObjectId user_a],
      topic = \<lparr>topic_value = Some ''old'', topic_creator = Some user_a, topic_last_set = Some 1\<rparr>,
      last_message = \<lparr>lm_text = None, lm_date = 0, lm_creator = None, lm_user_mentions = []\<rparr>,
      numOfMessage = 5, numOfReadedMessage = [(user_a, 5)]\<rparr>"

definition message0 :: message where
  "message0 =
     \<lparr>channel = ''c1'', creator = user_a, msg_text = Some ''hello'', user_mentions = [],
      msg_moderate = False, creation = 10\<rparr>"

definition store0 :: store where
  "store0 =
     \<lparr>conversations = [conversation0], messages = [message0], published = [], logged = [],
      calls = 0\<rparr>"

definition topic1 :: topic_doc where
  "topic1 = \<lparr>topic_value = Some ''new'', topic_creator = Some user_b, topic_last_set = Some 2\<rparr>"

definition modifications1 :: modifications where
  "modifications1 =
     \<lparr>newMembers = Some [user_b], deleteMembers = Some [user_a], mod_name = None,
      mod_avatar = None\<rparr>"




text \<open>
  A store where \<open>user_a\<close> has read three of the five messages, and one where \<open>user_b\<close>,
  who is not a member, has a counter above the message count.
\<close>

definition store_behind :: store where
  "store_behind =
     store0\<lparr>conversations := [conversation0\<lparr>numOfReadedMessage := [(user_a, 3)]\<rparr>]\<rparr>"

definition store_stale :: store where
  "store_stale =
     store0\<lparr>conversations := [conversation0\<lparr>numOfReadedMessage := [(user_a, 5), (user_b, 9)]\<rparr>]\<rparr>"

definition options1 :: options where
  "options1 =
     \<lparr>opt_type = None, ignoreMemberFilterForChannel = False, exactMembersMatch = True,
      opt_members = None, opt_name = NameUndefined, opt_moderate = False\<rparr>"

definition options2 :: options where
  "options2 =
     \<lparr>opt_type = None, ignoreMemberFilterForChannel = True, exactMembersMatch = False,
      opt_members = None, opt_name = NameUndefined, opt_moderate = False\<rparr>"

section \<open>Predicates of the specification\<close>

text \<open>
  A text has a mention when the pattern matches at some position; a mention token is
  exactly one match: the \<open>@\<close> and the 24 hexadecimal characters.
\<close>

fun has_mention :: "string \<Rightarrow> bool" where
  "has_mention [] = False"
| "has_mention (c # cs) = (mention_at (c # cs) \<or> has_mention cs)"





text \<open>
  The invariant of the data model, \<^verbatim>\<open>numOfReadedMessage[u] <= numOfMessage\<close> for every
  member \<open>u\<close>, and the same bound for every counter the conversation holds, member or
  not. \<^verbatim>\<open>String(id)\<close> of an ObjectId is its text.
\<close>

fun id_text :: "objectId \<Rightarrow> string" where
  "id_text (ObjectId h) = h"

definition members_bounded :: "conversation \<Rightarrow> bool" where
  "members_bounded c =
     list_all (\<lambda>u. case map_of (numOfReadedMessage c) (id_text u) of
                      None \<Rightarrow> True
                    | Some n \<Rightarrow> n \<le> numOfMessage c) (members c)"

definition read_invariant :: "store \<Rightarrow> bool" where
  "read_invariant s = list_all members_bounded (conversations s)"

definition counters_bounded :: "conversation \<Rightarrow> bool" where
  "counters_bounded c = list_all (\<lambda>(u, n). n \<le> numOfMessage c) (numOfReadedMessage c)"

definition store_counters_bounded :: "store \<Rightarrow> bool" where
  "store_counters_bounded s = list_all counters_bounded (conversations s)"

text \<open>
  The stores reached from \<open>s0\<close> by the operations that write read counters or the
  message count, with any arguments and any outcome of the store calls.
\<close>

inductive reachable :: "store \<Rightarrow> store \<Rightarrow> bool" for s0 :: store where
  start: "reachable s0 s0"
| createMessage:
    "reachable s0 s \<Longrightarrow>
     reachable s0 (snd (createMessage saveErr updateErr maxErr populateErr m s))"
| markAllMessagesAsRead:
    "reachable s0 s \<Longrightarrow>
     reachable s0 (snd (makeAllMessageReadedForAnUser findErr maxErr userIds conversationId s))"
| addMemberToConversation:
    "reachable s0 s \<Longrightarrow>
     reachable s0 (snd (addMemberToConversation updateErr maxErr conversationId userId s))"
| updateConversation:
    "reachable s0 s \<Longrightarrow>
     reachable s0
       (snd (updateConversation firstErr nextErr populateErr maxErr conversationId mods s))"

section \<open>Properties of object ids\<close>

lemma new_ObjectId_user_a [simp]: "new_ObjectId user_a = Inr (ObjectId user_a)"
  by (simp add: new_ObjectId_def user_a_def is_hex_def lower_hex_def)

lemma new_ObjectId_user_b [simp]: "new_ObjectId user_b = Inr (ObjectId user_b)"
  by (simp add: new_ObjectId_def user_b_def is_hex_def lower_hex_def)


lemma new_ObjectId_error: "new_ObjectId x = Inl e \<Longrightarrow> e = ObjectIdError"
  by (auto simp: new_ObjectId_def split: if_splits)

lemma map_throwing_error:
  "map_throwing f xs = Inl e \<Longrightarrow> \<exists>x \<in> set xs. f x = Inl e"
  by (induction xs) (auto split: sum.splits)

section \<open>Deleting a conversation\<close>

text \<open>
  C1. The claim: \<^verbatim>\<open>deleteConversation(u, c)\<close> with \<open>u\<close> not a member of \<open>c\<close> leaves \<open>c\<close>
  and all its messages unchanged and raises no error. On the example store, with
  \<open>user_b\<close> who is not a member of \<open>c1\<close>: no error is raised and the conversation stays,
  but the cascade \<^verbatim>\<open>ChatMessage.remove({channel: channel})\<close> runs all the same and the
  message of \<open>c1\<close> is gone; a deletion event without a document is published.
\<close>

theorem deleteConversation_non_member_removes_messages:
  "ObjectId user_b \<notin> set (members conversation0)
   \<and> messages store0 = [message0]
   \<and> deleteConversation False False user_b ''c1'' store0 =
       (Inr None, store0\<lparr>messages := [], published := [ChannelDeletion None], calls := 2\<rparr>)"
  by (simp add: deleteConversation_def store0_def conversation0_def message0_def
      new_ObjectId_def is_hex_def lower_hex_def user_a_def user_b_def called_def publish_def)

section \<open>Updating the topic\<close>

text \<open>
  C2. The claim: the message \<^verbatim>\<open>updateTopic\<close> publishes takes its topic from the document
  as committed after the update. On the example store the topic \<open>old\<close> is replaced by
  \<open>new\<close>: the store holds \<open>new\<close> afterwards, the published message says \<open>old\<close> in its
  \<open>topic\<close> field (and \<open>new\<close> in its text), because the callback receives the document
  as it was before the update.
\<close>

theorem updateTopic_publishes_previous_topic:
  "map (\<lambda>c. topic_value (topic c))
       (conversations (snd (updateTopic False 99 ''c1'' topic1 store0))) = [Some ''new'']
   \<and> map (\<lambda>e. case e of TopicUpdated tm \<Rightarrow> (topic_value (tm_topic tm), tm_text tm) | _ \<Rightarrow> (None, []))
       (published (snd (updateTopic False 99 ''c1'' topic1 store0)))
       = [(Some ''old'', ''set the channel topic: new'')]"
  by (simp add: updateTopic_def findByIdAndUpdate_def findOneAndUpdate_def store0_def
      conversation0_def topic1_def called_def publish_def)

section \<open>Reading messages\<close>

text \<open>
  C4. The claim: \<^verbatim>\<open>getMessages\<close> returns only non-moderated messages unless the query
  asks for moderated ones. With the only message of \<open>c1\<close> moderated and a query whose
  \<open>moderate\<close> is set, nothing is returned: the filter sent to the store is
  \<^verbatim>\<open>moderate: false\<close> whatever the query says.
\<close>

theorem getMessages_ignores_query_moderate:
  "fst (getMessages False (ConversationId ''c1'')
          (Some \<lparr>q_moderate = True, q_limit = None, q_offset = None\<rparr>)
          (store0\<lparr>messages := [message0\<lparr>msg_moderate := True\<rparr>]\<rparr>)) = Inr []"
  by (simp add: getMessages_def store0_def message0_def)

text \<open>
  What does hold for \<^verbatim>\<open>getMessages\<close>: the page it returns is in chronological order
  and has no moderated message, whatever the query.
\<close>

lemma sorted_rev_neg:
  "sorted (map (\<lambda>x. - f x) ys) \<Longrightarrow> sorted (map (f :: 'a \<Rightarrow> int) (rev ys))"
  by (induction ys) (auto simp: sorted_append)

lemma getMessages_chronological:
  assumes "fst (getMessages err conversation query s) = Inr ms"
  shows "sorted (map creation ms) \<and> list_all (\<lambda>m. \<not> msg_moderate m) ms"
proof -
  obtain l d i where ms: "ms = rev (take l (drop d (sort_key (\<lambda>m. - creation m)
      (filter (\<lambda>m. channel m = i \<and> msg_moderate m = False) (messages s)))))"
    using assms by (auto simp: getMessages_def Let_def split: if_splits)
  let ?xs = "sort_key (\<lambda>m. - creation m)
      (filter (\<lambda>m. channel m = i \<and> msg_moderate m = False) (messages s))"
  have "sorted (map (\<lambda>m. - creation m) ?xs)" by (rule sorted_sort_key)
  then have "sorted (drop d (map (\<lambda>m. - creation m) ?xs))" by (rule sorted_wrt_drop)
  then have "sorted (take l (drop d (map (\<lambda>m. - creation m) ?xs)))" by (rule sorted_wrt_take)
  then have "sorted (map (\<lambda>m. - creation m) (take l (drop d ?xs)))"
    by (simp add: take_map drop_map)
  then have "sorted (map creation ms)" unfolding ms by (rule sorted_rev_neg)
  moreover have "set ms \<subseteq> set ?xs"
    unfolding ms using set_take_subset set_drop_subset by fastforce
  then have "list_all (\<lambda>m. \<not> msg_moderate m) ms" by (auto simp: list_all_iff)
  ultimately show ?thesis by simp
qed

section \<open>Updating the members\<close>

text \<open>
  C6. The claim: after \<^verbatim>\<open>updateConversation(id, {newMembers: [x], deleteMembers: [y]})\<close>
  \<open>x\<close> is a member, \<open>y\<close> is not, and the read counter of \<open>x\<close> is the message count.
  On the example store, adding \<open>user_b\<close> and removing \<open>user_a\<close>: the members are as
  claimed, the message count is 5, but \<open>user_b\<close> has no read counter; the counter that
  was written is the one of the key \<open>undefined\<close>.
\<close>

theorem updateConversation_new_member_counter_not_set:
  "map (\<lambda>c. (members c, numOfMessage c, numOfReadedMessage c))
       (conversations (snd (updateConversation False False False False ''c1'' modifications1 store0)))
     = [([ObjectId user_b], 5, [(user_a, 5), (''undefined'', 5)])]
   \<and> map_of [(user_a, 5::int), (''undefined'', 5)] user_b = None"
  by (simp add: updateConversation_def done_cb_def makeAllMessageReadedForAnUserHelper_def
      findByIdAndUpdate_def findOneAndUpdate_def apply_modifications_def addToSet_each_def
      pullAll_def max_numOfReadedMessage_def modifications1_def store0_def conversation0_def
      ensureObjectId_def new_ObjectId_def is_hex_def lower_hex_def
      user_a_def user_b_def called_def publish_def)

section \<open>Properties of mention extraction\<close>

text \<open>What the two predicates say, in terms of the text.\<close>

lemma mention_at_iff:
  "mention_at t \<longleftrightarrow> (\<exists>h suf. t = CHR ''@'' # h @ suf \<and> length h = 24 \<and> list_all is_hex h)"
proof
  assume "mention_at t"
  then obtain cs where t: "t = CHR ''@'' # cs" and len: "24 \<le> length cs"
    and hex: "list_all is_hex (take 24 cs)"
    by (cases t) auto
  have "t = CHR ''@'' # take 24 cs @ drop 24 cs" using t by simp
  moreover have "length (take 24 cs) = 24" using len by simp
  ultimately show "\<exists>h suf. t = CHR ''@'' # h @ suf \<and> length h = 24 \<and> list_all is_hex h"
    using hex by blast
next
  assume "\<exists>h suf. t = CHR ''@'' # h @ suf \<and> length h = 24 \<and> list_all is_hex h"
  then show "mention_at t" by auto
qed

lemma has_mention_iff:
  "has_mention t \<longleftrightarrow> (\<exists>pre. \<exists>suf. t = pre @ suf \<and> mention_at suf)"
proof (induction t)
  case Nil
  then show ?case by simp
next
  case (Cons c cs)
  show ?case
  proof
    assume "has_mention (c # cs)"
    then consider "mention_at (c # cs)" | "has_mention cs" by auto
    then show "\<exists>pre suf. c # cs = pre @ suf \<and> mention_at suf"
    proof cases
      case 1
      then have "c # cs = [] @ (c # cs) \<and> mention_at (c # cs)" by simp
      then show ?thesis by blast
    next
      case 2
      then obtain pre suf where "cs = pre @ suf" "mention_at suf" using Cons.IH by blast
      then have "c # cs = (c # pre) @ suf \<and> mention_at suf" by simp
      then show ?thesis by blast
    qed
  next
    assume "\<exists>pre suf. c # cs = pre @ suf \<and> mention_at suf"
    then obtain pre suf where ps: "c # cs = pre @ suf" and m: "mention_at suf" by blast
    show "has_mention (c # cs)"
    proof (cases pre)
      case Nil
      then have "mention_at (c # cs)" using ps m by simp
      then show ?thesis by simp
    next
      case (Cons p pre')
      then have "cs = pre' @ suf" using ps by simp
      then have "has_mention cs" using Cons.IH m by blast
      then show ?thesis by simp
    qed
  qed
qed

lemma match_all_empty_iff: "match_all t = [] \<longleftrightarrow> \<not> has_mention t"
  by (induction t rule: match_all.induct) auto
























section \<open>Properties of the store calls\<close>

text \<open>
  Without \<^verbatim>\<open>{new: true}\<close> an update answers with the document it found and stores the
  updated one.
\<close>

lemma update_first_no_match: "find P xs = None \<Longrightarrow> update_first P f xs = xs"
  by (induction xs) (auto split: if_splits)

lemma find_update_first:
  "(\<And>x. P x \<Longrightarrow> P (f x)) \<Longrightarrow> find P (update_first P f xs) = map_option f (find P xs)"
  by (induction xs) auto

lemma findOneAndUpdate_old:
  "findOneAndUpdate err P upd False s =
     (if err then (Inl StoreError, called s)
      else (Inr (find P (conversations s)),
            called (s\<lparr>conversations := update_first P upd (conversations s)\<rparr>)))"
  by (auto simp: findOneAndUpdate_def update_first_no_match split: option.splits)

lemma findByIdAndUpdate_old:
  "findByIdAndUpdate err i upd False s =
     (if err then (Inl StoreError, called s)
      else (Inr (findById i s),
            called (s\<lparr>conversations := update_first (\<lambda>c. cid c = i) upd (conversations s)\<rparr>)))"
  by (simp add: findByIdAndUpdate_def findOneAndUpdate_old findById_def)

lemma helper_eq:
  "makeAllMessageReadedForAnUserHelper err us (Some c) s =
     (if err then (Inl StoreError, called s)
      else (Inr (findById (cid c) s),
            called (s\<lparr>conversations :=
              update_first (\<lambda>d. cid d = cid c)
                (max_numOfReadedMessage (max_keys us) (numOfMessage c)) (conversations s)\<rparr>)))"
  by (simp add: makeAllMessageReadedForAnUserHelper_def findByIdAndUpdate_old)

lemma helper_None: "makeAllMessageReadedForAnUserHelper err us None s = (Inl TypeError, s)"
  by (simp add: makeAllMessageReadedForAnUserHelper_def)

lemma createMessage_messages:
  assumes "parseMention m = Inr cm" and "\<not> saveErr"
  shows "messages (snd (createMessage saveErr updateErr maxErr populateErr m s)) = messages s @ [cm]"
  using assms
  by (cases "findById (channel cm) (called (s\<lparr>messages := messages s @ [cm]\<rparr>))")
     (auto simp: createMessage_def findByIdAndUpdate_old helper_eq helper_None called_def Let_def)

lemma createMessage_result:
  assumes "createMessage saveErr updateErr maxErr populateErr m s = (Inr m', s')"
  shows "parseMention m = Inr m'"
  using assms
  by (cases "parseMention m"; cases "findById (channel (projr (parseMention m))) (called (s\<lparr>messages := messages s @ [projr (parseMention m)]\<rparr>))")
     (auto simp: createMessage_def findByIdAndUpdate_old helper_eq helper_None called_def Let_def split: if_splits)

text \<open>
  C10. For every message whose text has no occurrence of \<open>@\<close> followed by 24 hexadecimal
  characters, the match is \<^verbatim>\<open>null\<close>, \<^verbatim>\<open>parseMention\<close> does not fail and sets
  \<open>user_mentions\<close> to the empty list, and so does \<^verbatim>\<open>createMessage\<close>: the message it
  stores, and the message it answers with when it succeeds, have no mentions.
\<close>

theorem parseMention_without_mention:
  assumes "msg_text m = Some t" and "\<not> has_mention t"
  shows "str_match t = None
    \<and> parseMention m = Inr (m\<lparr>user_mentions := []\<rparr>)
    \<and> (\<not> saveErr \<longrightarrow>
         messages (snd (createMessage saveErr updateErr maxErr populateErr m s))
           = messages s @ [m\<lparr>user_mentions := []\<rparr>])
    \<and> (fst (createMessage saveErr updateErr maxErr populateErr m s) = Inr m'
         \<longrightarrow> user_mentions m' = [])"
proof -
  have none: "str_match t = None"
    using assms(2) by (simp add: str_match_def match_all_empty_iff)
  have pm: "parseMention m = Inr (m\<lparr>user_mentions := []\<rparr>)"
    using assms(1) none by (simp add: parseMention_def mentions_of_def)
  have res: "user_mentions m' = []"
    if "fst (createMessage saveErr updateErr maxErr populateErr m s) = Inr m'"
  proof -
    from that have "createMessage saveErr updateErr maxErr populateErr m s
        = (Inr m', snd (createMessage saveErr updateErr maxErr populateErr m s))"
      by (metis prod.collapse)
    then have "parseMention m = Inr m'" by (rule createMessage_result)
    with pm show ?thesis by auto
  qed
  show ?thesis
    using none pm res createMessage_messages [OF pm] by blast
qed

theorem parseMention_without_mention_witness:
  "msg_text message0 = Some ''hello'' \<and> \<not> has_mention ''hello''
   \<and> str_match ''hello'' = None
   \<and> parseMention message0 = Inr (message0\<lparr>user_mentions := []\<rparr>)
   \<and> messages (snd (createMessage False False False False message0 store0))
       = messages store0 @ [message0\<lparr>user_mentions := []\<rparr>]"
proof -
  have t: "msg_text message0 = Some ''hello''" by (simp add: message0_def)
  have n: "\<not> has_mention ''hello''" by simp
  show ?thesis
    using t n parseMention_without_mention [OF t n, of False False False False store0 message0]
    by simp
qed




section \<open>Finding conversations\<close>

lemma members_all_error: "members_all ms = Inl e \<Longrightarrow> e = ObjectIdError"
  by (cases ms) (auto split: sum.splits dest!: map_throwing_error new_ObjectId_error)

lemma buildRequest_configuration_error_iff:
  "(\<exists>msg. buildRequest CHANNEL opts = Inl (ConfigurationError msg))
     \<longleftrightarrow> (exactMembersMatch opts \<or> ignoreMemberFilterForChannel opts) \<and> opt_members opts = None"
  by (auto simp: buildRequest_def Let_def split: option.splits sum.splits
      dest: members_all_error)

text \<open>
  C8. \<^verbatim>\<open>findConversation\<close> raises the configuration error when \<open>exactMembersMatch\<close> is
  set without members, and likewise when \<open>ignoreMemberFilterForChannel\<close> is set without
  members; no other combination of options raises it; and when it is raised the store
  has not been called (the state, with its count of store calls, is the one given).
\<close>

theorem findConversation_configuration_error:
  "(exactMembersMatch opts \<and> opt_members opts = None \<longrightarrow>
      findConversation CHANNEL err opts s =
        (Inl (ConfigurationError
           ''Could not set exactMembersMatch to true without providing members''), s))
   \<and> (\<not> exactMembersMatch opts \<and> ignoreMemberFilterForChannel opts \<and> opt_members opts = None \<longrightarrow>
      findConversation CHANNEL err opts s =
        (Inl (ConfigurationError
           ''Could not set ignoreMemberFilterForChannel to true without providing members''), s))
   \<and> ((\<exists>msg. fst (findConversation CHANNEL err opts s) = Inl (ConfigurationError msg))
        \<longleftrightarrow> (exactMembersMatch opts \<or> ignoreMemberFilterForChannel opts) \<and> opt_members opts = None)
   \<and> ((\<exists>msg. fst (findConversation CHANNEL err opts s) = Inl (ConfigurationError msg))
        \<longrightarrow> snd (findConversation CHANNEL err opts s) = s)"
proof -
  have a: "findConversation CHANNEL err opts s =
        (Inl (ConfigurationError
           ''Could not set exactMembersMatch to true without providing members''), s)"
    if "exactMembersMatch opts \<and> opt_members opts = None"
    using that by (simp add: findConversation_def buildRequest_def)
  have b: "findConversation CHANNEL err opts s =
        (Inl (ConfigurationError
           ''Could not set ignoreMemberFilterForChannel to true without providing members''), s)"
    if "\<not> exactMembersMatch opts \<and> ignoreMemberFilterForChannel opts \<and> opt_members opts = None"
    using that by (simp add: findConversation_def buildRequest_def)
  have c: "(\<exists>msg. fst (findConversation CHANNEL err opts s) = Inl (ConfigurationError msg))
        \<longleftrightarrow> (\<exists>msg. buildRequest CHANNEL opts = Inl (ConfigurationError msg))"
    by (cases "buildRequest CHANNEL opts") (auto simp: findConversation_def)
  have d: "snd (findConversation CHANNEL err opts s) = s"
    if "\<exists>msg. fst (findConversation CHANNEL err opts s) = Inl (ConfigurationError msg)"
    using that by (cases "buildRequest CHANNEL opts") (auto simp: findConversation_def split: if_splits)
  show ?thesis
    using a b c d buildRequest_configuration_error_iff [of CHANNEL opts] by blast
qed

theorem findConversation_configuration_error_witness:
  "exactMembersMatch options1 \<and> opt_members options1 = None
   \<and> findConversation ''channel'' False options1 store0 =
        (Inl (ConfigurationError
           ''Could not set exactMembersMatch to true without providing members''), store0)
   \<and> \<not> exactMembersMatch options2 \<and> ignoreMemberFilterForChannel options2
   \<and> opt_members options2 = None
   \<and> findConversation ''channel'' False options2 store0 =
        (Inl (ConfigurationError
           ''Could not set ignoreMemberFilterForChannel to true without providing members''),
         store0)"
  using findConversation_configuration_error [of options1 "''channel''" False store0]
    findConversation_configuration_error [of options2 "''channel''" False store0]
  by (simp add: options1_def options2_def)

section \<open>Marking messages as read\<close>

lemma map_of_mongo_max:
  "map_of (mongo_max k v al) u =
     (if u = k then Some (case map_of al k of None \<Rightarrow> v | Some p \<Rightarrow> max p v) else map_of al u)"
  by (induction al) auto

lemma map_of_fold_mongo_max:
  "map_of (fold (\<lambda>k. mongo_max k n) ks al) u =
     (if u \<in> set ks then Some (case map_of al u of None \<Rightarrow> n | Some p \<Rightarrow> max p n)
      else map_of al u)"
  by (induction ks arbitrary: al) (auto simp: map_of_mongo_max split: option.splits)

lemma find_cid: "find (\<lambda>c. cid c = i) xs = Some c \<Longrightarrow> cid c = i"
  by (induction xs) (auto split: if_splits)

lemma findById_cid: "findById i s = Some c \<Longrightarrow> cid c = i"
  unfolding findById_def by (rule find_cid)

lemma cid_max_numOfReadedMessage [simp]: "cid (max_numOfReadedMessage ks n c) = cid c"
  by (simp add: max_numOfReadedMessage_def)

lemma find_cid_update_first:
  "(\<And>c. cid (upd c) = cid c) \<Longrightarrow>
   find (\<lambda>c. cid c = i) (update_first (\<lambda>c. cid c = j) upd ys)
     = (if i = j then map_option upd (find (\<lambda>c. cid c = i) ys) else find (\<lambda>c. cid c = i) ys)"
  by (induction ys) auto

lemma markRead_eq:
  assumes "findById i s = Some c"
  shows "makeAllMessageReadedForAnUser findErr maxErr us i s =
     (if findErr then (Inl StoreError, called s)
      else if maxErr then (Inl StoreError, called (called s))
      else (Inr (Some c),
            called (called s\<lparr>conversations :=
              update_first (\<lambda>d. cid d = i)
                (max_numOfReadedMessage (max_keys us) (numOfMessage c)) (conversations s)\<rparr>)))"
  using assms findById_cid [OF assms]
  by (simp add: makeAllMessageReadedForAnUser_def helper_eq) (simp add: findById_def called_def)

lemma findById_called [simp]: "findById i (called s) = findById i s"
  by (simp add: findById_def called_def)

lemma markRead_general:
  assumes "findById conversationId s = Some c"
  shows "(\<exists>c'. findById conversationId
                 (snd (makeAllMessageReadedForAnUser False False userIds conversationId s)) = Some c'
           \<and> numOfMessage c' = numOfMessage c
           \<and> (\<forall>u \<in> set (max_keys userIds).
                 map_of (numOfReadedMessage c') u =
                   Some (case map_of (numOfReadedMessage c) u of
                           None \<Rightarrow> numOfMessage c
                         | Some p \<Rightarrow> max p (numOfMessage c)))
           \<and> (\<forall>u. u \<notin> set (max_keys userIds) \<longrightarrow>
                 map_of (numOfReadedMessage c') u = map_of (numOfReadedMessage c) u))
     \<and> (\<exists>c'. findById conversationId
                 (snd (makeAllMessageReadedForAnUser findErr maxErr userIds conversationId s)) = Some c'
           \<and> (\<forall>u p. map_of (numOfReadedMessage c) u = Some p \<longrightarrow>
                 (\<exists>p'. map_of (numOfReadedMessage c') u = Some p' \<and> p \<le> p')))"
proof -
  let ?upd = "max_numOfReadedMessage (max_keys userIds) (numOfMessage c)"
  let ?s' = "called (called s\<lparr>conversations :=
              update_first (\<lambda>d. cid d = conversationId) ?upd (conversations s)\<rparr>)"
  have found: "findById conversationId ?s' = Some (?upd c)"
    using assms by (simp add: findById_def called_def find_cid_update_first)
  have val: "map_of (numOfReadedMessage (?upd c)) u =
      (if u \<in> set (max_keys userIds)
       then Some (case map_of (numOfReadedMessage c) u of
                    None \<Rightarrow> numOfMessage c | Some p \<Rightarrow> max p (numOfMessage c))
       else map_of (numOfReadedMessage c) u)" for u
    by (simp add: max_numOfReadedMessage_def map_of_fold_mongo_max)
  have num: "numOfMessage (?upd c) = numOfMessage c"
    by (simp add: max_numOfReadedMessage_def)
  have mono: "\<exists>p'. map_of (numOfReadedMessage (?upd c)) u = Some p' \<and> p \<le> p'"
    if "map_of (numOfReadedMessage c) u = Some p" for u p
    using that by (simp add: val)
  have first: "\<exists>c'. findById conversationId
                 (snd (makeAllMessageReadedForAnUser False False userIds conversationId s)) = Some c'
           \<and> numOfMessage c' = numOfMessage c
           \<and> (\<forall>u \<in> set (max_keys userIds).
                 map_of (numOfReadedMessage c') u =
                   Some (case map_of (numOfReadedMessage c) u of
                           None \<Rightarrow> numOfMessage c
                         | Some p \<Rightarrow> max p (numOfMessage c)))
           \<and> (\<forall>u. u \<notin> set (max_keys userIds) \<longrightarrow>
                 map_of (numOfReadedMessage c') u = map_of (numOfReadedMessage c) u)"
    using found num val by (simp add: markRead_eq [OF assms])
  have second: "\<exists>c'. findById conversationId
                 (snd (makeAllMessageReadedForAnUser findErr maxErr userIds conversationId s)) = Some c'
           \<and> (\<forall>u p. map_of (numOfReadedMessage c) u = Some p \<longrightarrow>
                 (\<exists>p'. map_of (numOfReadedMessage c') u = Some p' \<and> p \<le> p'))"
  proof (cases "findErr \<or> maxErr")
    case True
    then have "findById conversationId
        (snd (makeAllMessageReadedForAnUser findErr maxErr userIds conversationId s)) = Some c"
      using assms by (auto simp: markRead_eq [OF assms])
    then show ?thesis by simp
  next
    case False
    then have "findById conversationId
        (snd (makeAllMessageReadedForAnUser findErr maxErr userIds conversationId s)) = Some (?upd c)"
      using found by (simp add: markRead_eq [OF assms])
    then show ?thesis using mono by simp
  qed
  from first second show ?thesis by blast
qed


text \<open>
  C5. For a conversation \<open>c\<close> that is in the store, after
  \<^verbatim>\<open>makeAllMessageReadedForAnUser\<close> (the spec's \<^verbatim>\<open>markAllMessagesAsRead\<close>) has run with no
  error of the store: given one user \<open>u\<close>, the counter of \<open>u\<close> is the maximum of its
  previous value and \<open>c.numOfMessage\<close> (a counter that was missing is
  \<open>c.numOfMessage\<close>); given a list of users, the same holds for every user of the list;
  the counters of the other users and the message count are unchanged. Whatever the
  outcome of the store calls, no counter decreases.
\<close>

theorem markAllMessagesAsRead_max:
  assumes "findById conversationId s = Some c"
  shows "(\<exists>c'. findById conversationId
                 (snd (makeAllMessageReadedForAnUser False False (One u) conversationId s)) = Some c'
           \<and> numOfMessage c' = numOfMessage c
           \<and> map_of (numOfReadedMessage c') u =
                 Some (case map_of (numOfReadedMessage c) u of
                         None \<Rightarrow> numOfMessage c
                       | Some p \<Rightarrow> max p (numOfMessage c))
           \<and> (\<forall>v. v \<noteq> u \<longrightarrow>
                 map_of (numOfReadedMessage c') v = map_of (numOfReadedMessage c) v))
     \<and> (\<exists>c'. findById conversationId
                 (snd (makeAllMessageReadedForAnUser False False (Many us) conversationId s)) = Some c'
           \<and> numOfMessage c' = numOfMessage c
           \<and> (\<forall>u \<in> set us.
                 map_of (numOfReadedMessage c') u =
                   Some (case map_of (numOfReadedMessage c) u of
                           None \<Rightarrow> numOfMessage c
                         | Some p \<Rightarrow> max p (numOfMessage c)))
           \<and> (\<forall>v. v \<notin> set us \<longrightarrow>
                 map_of (numOfReadedMessage c') v = map_of (numOfReadedMessage c) v))
     \<and> (\<exists>c'. findById conversationId
                 (snd (makeAllMessageReadedForAnUser findErr maxErr userIds conversationId s)) = Some c'
           \<and> (\<forall>v p. map_of (numOfReadedMessage c) v = Some p \<longrightarrow>
                 (\<exists>p'. map_of (numOfReadedMessage c') v = Some p' \<and> p \<le> p')))"
proof (intro conjI)
  show "\<exists>c'. findById conversationId
                 (snd (makeAllMessageReadedForAnUser False False (One u) conversationId s)) = Some c'
           \<and> numOfMessage c' = numOfMessage c
           \<and> map_of (numOfReadedMessage c') u =
                 Some (case map_of (numOfReadedMessage c) u of
                         None \<Rightarrow> numOfMessage c
                       | Some p \<Rightarrow> max p (numOfMessage c))
           \<and> (\<forall>v. v \<noteq> u \<longrightarrow>
                 map_of (numOfReadedMessage c') v = map_of (numOfReadedMessage c) v)"
    using markRead_general [OF assms, of "One u", THEN conjunct1] by simp
  show "\<exists>c'. findById conversationId
                 (snd (makeAllMessageReadedForAnUser False False (Many us) conversationId s)) = Some c'
           \<and> numOfMessage c' = numOfMessage c
           \<and> (\<forall>u \<in> set us.
                 map_of (numOfReadedMessage c') u =
                   Some (case map_of (numOfReadedMessage c) u of
                           None \<Rightarrow> numOfMessage c
                         | Some p \<Rightarrow> max p (numOfMessage c)))
           \<and> (\<forall>v. v \<notin> set us \<longrightarrow>
                 map_of (numOfReadedMessage c') v = map_of (numOfReadedMessage c) v)"
    using markRead_general [OF assms, of "Many us", THEN conjunct1] by simp
  show "\<exists>c'. findById conversationId
                 (snd (makeAllMessageReadedForAnUser findErr maxErr userIds conversationId s)) = Some c'
           \<and> (\<forall>v p. map_of (numOfReadedMessage c) v = Some p \<longrightarrow>
                 (\<exists>p'. map_of (numOfReadedMessage c') v = Some p' \<and> p \<le> p'))"
    using markRead_general [OF assms, of userIds findErr maxErr, THEN conjunct2] .
qed

text \<open>
  On the store where \<open>user_a\<close> is at 3 of 5 messages: given \<open>user_a\<close> alone, her
  counter becomes 5 and \<open>user_b\<close> still has none; given both users, both are at 5. On
  the store where \<open>user_b\<close> is at 9, his counter stays 9.
\<close>

theorem markAllMessagesAsRead_max_witness:
  "findById ''c1'' store_behind = Some (conversation0\<lparr>numOfReadedMessage := [(user_a, 3)]\<rparr>)
   \<and> (\<exists>c'. findById ''c1''
           (snd (makeAllMessageReadedForAnUser False False (One user_a) ''c1'' store_behind))
           = Some c'
         \<and> numOfMessage c' = 5
         \<and> map_of (numOfReadedMessage c') user_a = Some 5
         \<and> map_of (numOfReadedMessage c') user_b = None)
   \<and> (\<exists>c'. findById ''c1''
           (snd (makeAllMessageReadedForAnUser False False (Many [user_a, user_b]) ''c1''
                  store_behind))
           = Some c'
         \<and> numOfMessage c' = 5
         \<and> map_of (numOfReadedMessage c') user_a = Some 5
         \<and> map_of (numOfReadedMessage c') user_b = Some 5)
   \<and> findById ''c1'' store_stale
       = Some (conversation0\<lparr>numOfReadedMessage := [(user_a, 5), (user_b, 9)]\<rparr>)
   \<and> (\<exists>c'. findById ''c1''
           (snd (makeAllMessageReadedForAnUser False False (One user_b) ''c1'' store_stale))
           = Some c'
         \<and> map_of (numOfReadedMessage c') user_b = Some 9)"
proof -
  let ?c = "conversation0\<lparr>numOfReadedMessage := [(user_a, 3)]\<rparr>"
  let ?d = "conversation0\<lparr>numOfReadedMessage := [(user_a, 5), (user_b, 9)]\<rparr>"
  have ab: "user_a \<noteq> user_b" by (simp add: user_a_def user_b_def)
  have h: "findById ''c1'' store_behind = Some ?c"
    by (simp add: findById_def store_behind_def store0_def conversation0_def)
  have k: "findById ''c1'' store_stale = Some ?d"
    by (simp add: findById_def store_stale_def store0_def conversation0_def)
  have n: "numOfMessage ?c = 5" "numOfMessage ?d = 5" by (simp_all add: conversation0_def)
  note one = markAllMessagesAsRead_max [OF h, of user_a "[user_a, user_b]" False False Undefined,
      THEN conjunct1]
  note many = markAllMessagesAsRead_max [OF h, of user_a "[user_a, user_b]" False False Undefined,
      THEN conjunct2, THEN conjunct1]
  note stale = markAllMessagesAsRead_max [OF k, of user_b "[]" False False Undefined,
      THEN conjunct1]
  from one obtain c1 where
    "findById ''c1''
       (snd (makeAllMessageReadedForAnUser False False (One user_a) ''c1'' store_behind)) = Some c1"
    "numOfMessage c1 = numOfMessage ?c"
    "map_of (numOfReadedMessage c1) user_a =
       Some (case map_of (numOfReadedMessage ?c) user_a of
               None \<Rightarrow> numOfMessage ?c | Some p \<Rightarrow> max p (numOfMessage ?c))"
    "\<forall>v. v \<noteq> user_a \<longrightarrow> map_of (numOfReadedMessage c1) v = map_of (numOfReadedMessage ?c) v"
    by blast
  then have first: "\<exists>c'. findById ''c1''
           (snd (makeAllMessageReadedForAnUser False False (One user_a) ''c1'' store_behind))
           = Some c'
         \<and> numOfMessage c' = 5
         \<and> map_of (numOfReadedMessage c') user_a = Some 5
         \<and> map_of (numOfReadedMessage c') user_b = None"
    using ab n by (auto simp: conversation0_def)
  from many obtain c2 where
    "findById ''c1''
       (snd (makeAllMessageReadedForAnUser False False (Many [user_a, user_b]) ''c1''
              store_behind)) = Some c2"
    "numOfMessage c2 = numOfMessage ?c"
    "\<forall>u \<in> set [user_a, user_b].
       map_of (numOfReadedMessage c2) u =
         Some (case map_of (numOfReadedMessage ?c) u of
                 None \<Rightarrow> numOfMessage ?c | Some p \<Rightarrow> max p (numOfMessage ?c))"
    by blast
  then have second: "\<exists>c'. findById ''c1''
           (snd (makeAllMessageReadedForAnUser False False (Many [user_a, user_b]) ''c1''
                  store_behind))
           = Some c'
         \<and> numOfMessage c' = 5
         \<and> map_of (numOfReadedMessage c') user_a = Some 5
         \<and> map_of (numOfReadedMessage c') user_b = Some 5"
    using ab n by (auto simp: conversation0_def)
  from stale obtain c3 where
    "findById ''c1''
       (snd (makeAllMessageReadedForAnUser False False (One user_b) ''c1'' store_stale)) = Some c3"
    "map_of (numOfReadedMessage c3) user_b =
       Some (case map_of (numOfReadedMessage ?d) user_b of
               None \<Rightarrow> numOfMessage ?d | Some p \<Rightarrow> max p (numOfMessage ?d))"
    by blast
  then have third: "\<exists>c'. findById ''c1''
           (snd (makeAllMessageReadedForAnUser False False (One user_b) ''c1'' store_stale))
           = Some c'
         \<and> map_of (numOfReadedMessage c') user_b = Some 9"
    using ab n by (auto simp: conversation0_def)
  from h first second k third show ?thesis by blast
qed

section \<open>Creating a message\<close>

lemma parseMention_fields:
  "parseMention m = Inr cm \<Longrightarrow>
   channel cm = channel m \<and> creator cm = creator m \<and> msg_text cm = msg_text m
   \<and> creation cm = creation m"
  by (auto simp: parseMention_def split: option.splits sum.splits)

lemma cid_set_last_message_inc [simp]: "cid (set_last_message_inc m c) = cid c"
  by (simp add: set_last_message_inc_def)

lemma createMessage_success:
  assumes "createMessage saveErr updateErr maxErr populateErr m s = (Inr m', s')"
  shows "parseMention m = Inr m' \<and>
    (\<exists>c. findById (channel m) s = Some c
       \<and> conversations s' =
           update_first (\<lambda>d. cid d = cid c)
             (max_numOfReadedMessage [creator m'] (numOfMessage c))
             (update_first (\<lambda>d. cid d = channel m') (set_last_message_inc m') (conversations s))
       \<and> messages s' = messages s @ [m'])"
proof -
  from assms have pm: "parseMention m = Inr m'" by (rule createMessage_result)
  then have ch: "channel m' = channel m" by (simp add: parseMention_fields)
  show ?thesis
  proof (cases "findById (channel m) s")
    case None
    then have False using assms pm ch
      by (auto simp: createMessage_def findByIdAndUpdate_old helper_eq helper_None Let_def
          findById_def called_def split: if_splits)
    then show ?thesis ..
  next
    case (Some c)
    then show ?thesis using assms pm ch
      by (auto simp: createMessage_def findByIdAndUpdate_old helper_eq helper_None Let_def
          findById_def called_def split: if_splits)
  qed
qed

lemma createMessage_update_failure:
  assumes "parseMention m = Inr cm" and "\<not> saveErr"
  shows "createMessage saveErr True maxErr populateErr m s =
     (Inl TypeError,
      s\<lparr>messages := messages s @ [cm],
        logged := logged s @ [''Can not update channel with last_update''],
        calls := Suc (Suc (calls s))\<rparr>)"
  using assms
  by (simp add: createMessage_def findByIdAndUpdate_old helper_None Let_def called_def)

text \<open>
  C3. Whenever \<^verbatim>\<open>createMessage\<close> succeeds with the message \<open>m'\<close>, the conversation of
  \<open>m'\<close> was in the store, its \<open>numOfMessage\<close> is one more than before, its
  \<open>last_message\<close> is made of the text, creation date, creator and mentions of \<open>m'\<close>,
  and \<open>m'\<close> is stored. When the update of the conversation fails, the failure is
  logged and the message that was saved stays in the store.
\<close>

theorem createMessage_updates_summary:
  "(createMessage saveErr updateErr maxErr populateErr m s = (Inr m', s') \<longrightarrow>
      (\<exists>c c'. findById (channel m') s = Some c \<and> findById (channel m') s' = Some c'
         \<and> numOfMessage c' = numOfMessage c + 1
         \<and> last_message c' =
             \<lparr>lm_text = msg_text m', lm_date = creation m', lm_creator = Some (creator m'),
              lm_user_mentions = user_mentions m'\<rparr>
         \<and> messages s' = messages s @ [m']))
   \<and> (parseMention m = Inr cm \<and> \<not> saveErr \<longrightarrow>
        messages (snd (createMessage saveErr True maxErr populateErr m s)) = messages s @ [cm]
        \<and> logged (snd (createMessage saveErr True maxErr populateErr m s))
            = logged s @ [''Can not update channel with last_update''])"
proof -
  have ok: "\<exists>c c'. findById (channel m') s = Some c \<and> findById (channel m') s' = Some c'
         \<and> numOfMessage c' = numOfMessage c + 1
         \<and> last_message c' =
             \<lparr>lm_text = msg_text m', lm_date = creation m', lm_creator = Some (creator m'),
              lm_user_mentions = user_mentions m'\<rparr>
         \<and> messages s' = messages s @ [m']"
    if run: "createMessage saveErr updateErr maxErr populateErr m s = (Inr m', s')"
  proof -
    from createMessage_success [OF run] obtain c where
      pm: "parseMention m = Inr m'" and c: "findById (channel m) s = Some c"
      and convs: "conversations s' =
           update_first (\<lambda>d. cid d = cid c)
             (max_numOfReadedMessage [creator m'] (numOfMessage c))
             (update_first (\<lambda>d. cid d = channel m') (set_last_message_inc m') (conversations s))"
      and msgs: "messages s' = messages s @ [m']"
      by blast
    have ch: "channel m' = channel m" using pm by (simp add: parseMention_fields)
    have cidc: "cid c = channel m" using c by (rule findById_cid)
    let ?c' = "max_numOfReadedMessage [creator m'] (numOfMessage c) (set_last_message_inc m' c)"
    have "findById (channel m') s' = Some ?c'"
      using c ch cidc convs by (simp add: findById_def find_cid_update_first)
    moreover have "numOfMessage ?c' = numOfMessage c + 1"
      by (simp add: max_numOfReadedMessage_def set_last_message_inc_def)
    moreover have "last_message ?c' =
             \<lparr>lm_text = msg_text m', lm_date = creation m', lm_creator = Some (creator m'),
              lm_user_mentions = user_mentions m'\<rparr>"
      by (simp add: max_numOfReadedMessage_def set_last_message_inc_def)
    ultimately show ?thesis using c ch msgs by simp
  qed
  have ko: "messages (snd (createMessage saveErr True maxErr populateErr m s)) = messages s @ [cm]
        \<and> logged (snd (createMessage saveErr True maxErr populateErr m s))
            = logged s @ [''Can not update channel with last_update'']"
    if "parseMention m = Inr cm \<and> \<not> saveErr"
    using that by (simp add: createMessage_update_failure)
  from ok ko show ?thesis by blast
qed

theorem createMessage_updates_summary_witness:
  "fst (createMessage False False False False message0 store0) = Inr message0
   \<and> (\<exists>c c'. findById ''c1'' store0 = Some c
         \<and> findById ''c1'' (snd (createMessage False False False False message0 store0)) = Some c'
         \<and> numOfMessage c' = numOfMessage c + 1
         \<and> last_message c' =
             \<lparr>lm_text = Some ''hello'', lm_date = 10, lm_creator = Some user_a,
              lm_user_mentions = []\<rparr>)
   \<and> parseMention message0 = Inr message0
   \<and> messages (snd (createMessage False True False False message0 store0))
       = [message0, message0]
   \<and> logged (snd (createMessage False True False False message0 store0))
       = [''Can not update channel with last_update'']"
proof -
  have pm: "parseMention message0 = Inr message0"
    by (simp add: parseMention_def message0_def mentions_of_def str_match_def)
  have ch: "channel message0 = ''c1''" by (simp add: message0_def)
  have cc: "cid conversation0 = ''c1''" by (simp add: conversation0_def)
  have "fst (createMessage False False False False message0 store0) = Inr message0"
    by (simp add: createMessage_def pm findByIdAndUpdate_old helper_eq Let_def findById_def
        store0_def called_def ch cc)
  then have run: "createMessage False False False False message0 store0
      = (Inr message0, snd (createMessage False False False False message0 store0))"
    by (metis prod.collapse)
  note summary = createMessage_updates_summary [of False False False False message0 store0 message0
        "snd (createMessage False False False False message0 store0)" message0]
  from summary run obtain c c' where
    "findById (channel message0) store0 = Some c"
    "findById (channel message0) (snd (createMessage False False False False message0 store0))
       = Some c'"
    "numOfMessage c' = numOfMessage c + 1"
    "last_message c' =
       \<lparr>lm_text = msg_text message0, lm_date = creation message0,
        lm_creator = Some (creator message0), lm_user_mentions = user_mentions message0\<rparr>"
    by blast
  then have first: "\<exists>c c'. findById ''c1'' store0 = Some c
         \<and> findById ''c1'' (snd (createMessage False False False False message0 store0)) = Some c'
         \<and> numOfMessage c' = numOfMessage c + 1
         \<and> last_message c' =
             \<lparr>lm_text = Some ''hello'', lm_date = 10, lm_creator = Some user_a,
              lm_user_mentions = []\<rparr>"
    unfolding ch by (auto simp: message0_def)
  from summary pm have
    "messages (snd (createMessage False True False False message0 store0))
       = messages store0 @ [message0]"
    "logged (snd (createMessage False True False False message0 store0))
       = logged store0 @ [''Can not update channel with last_update'']"
    by blast+
  then have second:
    "messages (snd (createMessage False True False False message0 store0)) = [message0, message0]"
    "logged (snd (createMessage False True False False message0 store0))
       = [''Can not update channel with last_update'']"
    by (simp_all add: store0_def)
  from \<open>fst (createMessage False False False False message0 store0) = Inr message0\<close>
    first pm second
  show ?thesis by blast
qed

section \<open>The read counters never exceed the message count\<close>

lemma counters_bounded_members: "counters_bounded c \<Longrightarrow> members_bounded c"
  unfolding counters_bounded_def members_bounded_def list_all_iff
  by (auto split: option.splits dest!: map_of_SomeD)

lemma store_bounded_invariant: "store_counters_bounded s \<Longrightarrow> read_invariant s"
  unfolding store_counters_bounded_def read_invariant_def list_all_iff
  by (auto intro: counters_bounded_members)

lemma list_all_mongo_max:
  "list_all (\<lambda>(u, n). n \<le> b) al \<Longrightarrow> v \<le> b \<Longrightarrow> list_all (\<lambda>(u, n). n \<le> b) (mongo_max k v al)"
  by (induction al) auto

lemma list_all_fold_mongo_max:
  "list_all (\<lambda>(u, n). n \<le> b) al \<Longrightarrow> v \<le> b \<Longrightarrow>
   list_all (\<lambda>(u, n). n \<le> (b::int)) (fold (\<lambda>k. mongo_max k v) ks al)"
  by (induction ks arbitrary: al) (auto simp: list_all_mongo_max)

lemma counters_bounded_max:
  "counters_bounded c \<Longrightarrow> n \<le> numOfMessage c \<Longrightarrow> counters_bounded (max_numOfReadedMessage ks n c)"
  by (simp add: counters_bounded_def max_numOfReadedMessage_def list_all_fold_mongo_max)

lemma counters_bounded_inc:
  "counters_bounded c \<Longrightarrow> counters_bounded (set_last_message_inc m c)"
  unfolding counters_bounded_def set_last_message_inc_def list_all_iff by fastforce

lemma counters_bounded_apply_modifications:
  "counters_bounded c \<Longrightarrow> counters_bounded (apply_modifications md c)"
  by (simp add: counters_bounded_def apply_modifications_def)

lemma list_all_update_first:
  "list_all Q xs \<Longrightarrow> (\<And>x. find P xs = Some x \<Longrightarrow> Q x \<Longrightarrow> Q (f x)) \<Longrightarrow>
   list_all Q (update_first P f xs)"
  by (induction xs) (auto split: if_splits)

lemma bounded_called [simp]: "store_counters_bounded (called s) = store_counters_bounded s"
  by (simp add: store_counters_bounded_def called_def)

lemma bounded_publish [simp]: "store_counters_bounded (publish e s) = store_counters_bounded s"
  by (simp add: store_counters_bounded_def publish_def)

lemma bounded_update:
  assumes "store_counters_bounded s"
    and "\<And>c. findById i s = Some c \<Longrightarrow> counters_bounded c \<Longrightarrow> counters_bounded (upd c)"
  shows "store_counters_bounded
           (s\<lparr>conversations := update_first (\<lambda>c. cid c = i) upd (conversations s)\<rparr>)"
  using assms unfolding store_counters_bounded_def findById_def
  by (simp add: list_all_update_first)

lemma bounded_findOneAndUpdate:
  assumes "store_counters_bounded s"
    and "\<And>c. findById i s = Some c \<Longrightarrow> counters_bounded c \<Longrightarrow> counters_bounded (upd c)"
  shows "store_counters_bounded (snd (findOneAndUpdate err (\<lambda>c. cid c = i) upd False s))"
  using assms by (simp add: findOneAndUpdate_old bounded_update)

lemma bounded_helper_None:
  "store_counters_bounded s \<Longrightarrow>
   store_counters_bounded (snd (makeAllMessageReadedForAnUserHelper err us None s))"
  by (simp add: helper_None)

lemma bounded_helper_Some:
  assumes "store_counters_bounded s"
    and "\<And>d. findById (cid c) s = Some d \<Longrightarrow> numOfMessage c \<le> numOfMessage d"
  shows "store_counters_bounded (snd (makeAllMessageReadedForAnUserHelper err us (Some c) s))"
proof -
  have "store_counters_bounded
          (snd (findOneAndUpdate err (\<lambda>d. cid d = cid c)
                  (max_numOfReadedMessage (max_keys us) (numOfMessage c)) False s))"
    using assms by (intro bounded_findOneAndUpdate counters_bounded_max) auto
  then show ?thesis
    by (simp add: makeAllMessageReadedForAnUserHelper_def findByIdAndUpdate_def)
qed

lemma bounded_markRead:
  assumes "store_counters_bounded s"
  shows "store_counters_bounded
           (snd (makeAllMessageReadedForAnUser findErr maxErr userIds conversationId s))"
proof (cases "findById conversationId s")
  case None
  then show ?thesis using assms
    by (simp add: makeAllMessageReadedForAnUser_def helper_None)
next
  case (Some c)
  have "store_counters_bounded
          (snd (makeAllMessageReadedForAnUserHelper maxErr userIds (Some c) (called s)))"
    using assms Some findById_cid [OF Some] by (intro bounded_helper_Some) auto
  then show ?thesis using assms Some
    by (simp add: makeAllMessageReadedForAnUser_def)
qed

lemma bounded_messages [simp]:
  "store_counters_bounded (s\<lparr>messages := ms\<rparr>) = store_counters_bounded s"
  by (simp add: store_counters_bounded_def)

lemma bounded_logged [simp]:
  "store_counters_bounded (s\<lparr>logged := ls\<rparr>) = store_counters_bounded s"
  by (simp add: store_counters_bounded_def)

lemma conversations_called [simp]: "conversations (called s) = conversations s"
  by (simp add: called_def)

lemma bounded_addMember:
  assumes "store_counters_bounded s"
  shows "store_counters_bounded
           (snd (addMemberToConversation updateErr maxErr conversationId userId s))"
proof (cases "ensureObjectId userId")
  case (Inl e)
  then show ?thesis using assms by (simp add: addMemberToConversation_def)
next
  case (Inr userObjectId)
  let ?upd = "\<lambda>c. c\<lparr>members := addToSet_each [userObjectId] (members c)\<rparr>"
  let ?s1 = "called (s\<lparr>conversations := update_first (\<lambda>c. cid c = conversationId) ?upd (conversations s)\<rparr>)"
  have "store_counters_bounded
          (s\<lparr>conversations := update_first (\<lambda>c. cid c = conversationId) ?upd (conversations s)\<rparr>)"
    by (rule bounded_update [OF assms]) (simp add: counters_bounded_def)
  then have b1: "store_counters_bounded ?s1" by simp
  show ?thesis
  proof (cases "findById conversationId s")
    case None
    then show ?thesis using assms b1 Inr
      by (simp add: addMemberToConversation_def findByIdAndUpdate_old)
  next
    case (Some c)
    have f1: "findById (cid c) ?s1 = Some (?upd c)"
      using Some findById_cid [OF Some] by (simp add: findById_def find_cid_update_first)
    have "store_counters_bounded
            (snd (makeAllMessageReadedForAnUserHelper maxErr (One userId) (Some c) ?s1))"
      using b1 f1 by (intro bounded_helper_Some) auto
    then show ?thesis using assms Some Inr
      by (auto simp: addMemberToConversation_def findByIdAndUpdate_old split: prod.splits)
  qed
qed

lemma bounded_createMessage:
  assumes "store_counters_bounded s"
  shows "store_counters_bounded (snd (createMessage saveErr updateErr maxErr populateErr m s))"
proof (cases "parseMention m")
  case (Inl e)
  then show ?thesis using assms by (simp add: createMessage_def)
next
  case (Inr cm)
  let ?s1 = "called (s\<lparr>messages := messages s @ [cm]\<rparr>)"
  let ?s2 = "called (?s1\<lparr>conversations :=
               update_first (\<lambda>c. cid c = channel cm) (set_last_message_inc cm) (conversations ?s1)\<rparr>)"
  have b1: "store_counters_bounded ?s1"
    using assms by simp
  have "store_counters_bounded (?s1\<lparr>conversations :=
               update_first (\<lambda>c. cid c = channel cm) (set_last_message_inc cm) (conversations ?s1)\<rparr>)"
    by (rule bounded_update [OF b1]) (rule counters_bounded_inc)
  then have b2: "store_counters_bounded ?s2" by simp
  show ?thesis
  proof (cases "saveErr")
    case True
    then show ?thesis using assms Inr by (simp add: createMessage_def)
  next
    case noSave: False
    show ?thesis
    proof (cases "updateErr")
      case True
      then show ?thesis using Inr noSave assms
        by (simp add: createMessage_def findByIdAndUpdate_old helper_None Let_def)
    next
      case nu: False
      show ?thesis
      proof (cases "findById (channel cm) ?s1")
        case None
        then show ?thesis using Inr noSave nu b2
          by (simp add: createMessage_def findByIdAndUpdate_old helper_None Let_def)
      next
        case (Some c)
        have f2: "findById (cid c) ?s2 = Some (set_last_message_inc cm c)"
          using Some findById_cid [OF Some] by (simp add: findById_def find_cid_update_first)
        have "store_counters_bounded
                (snd (makeAllMessageReadedForAnUserHelper maxErr (One (creator cm)) (Some c) ?s2))"
          using b2 f2 by (intro bounded_helper_Some) (auto simp: set_last_message_inc_def)
        then show ?thesis using Inr noSave nu Some
          by (auto simp: createMessage_def findByIdAndUpdate_old Let_def split: prod.splits sum.splits)
      qed
    qed
  qed
qed

lemma findById_publish [simp]: "findById i (publish e s) = findById i s"
  by (simp add: findById_def publish_def)

lemma cid_apply_modifications [simp]: "cid (apply_modifications md c) = cid c"
  by (simp add: apply_modifications_def)

lemma numOfMessage_apply_modifications [simp]:
  "numOfMessage (apply_modifications md c) = numOfMessage c"
  by (simp add: apply_modifications_def)

lemma bounded_done_cb:
  assumes "store_counters_bounded s"
    and "\<And>c d. r = Inr (Some c) \<Longrightarrow> findById (cid c) s = Some d \<Longrightarrow> numOfMessage c \<le> numOfMessage d"
  shows "store_counters_bounded (snd (done_cb populateErr maxErr mods r s))"
proof (cases r)
  case (Inl e)
  then show ?thesis using assms(1) by (simp add: done_cb_def)
next
  case (Inr oc)
  show ?thesis
  proof (cases oc)
    case None
    then show ?thesis using Inr assms(1) by (simp add: done_cb_def)
  next
    case (Some c)
    let ?s1 = "publish (ConversationUpdate c (deleteMembers mods)) (called s)"
    have "store_counters_bounded
            (snd (makeAllMessageReadedForAnUserHelper maxErr Undefined (Some c) ?s1))"
      using assms Inr Some by (intro bounded_helper_Some) auto
    then show ?thesis using Inr Some assms(1) by (simp add: done_cb_def Let_def)
  qed
qed

lemma findOneAndUpdate_step:
  assumes "store_counters_bounded s"
  shows "store_counters_bounded
           (snd (findOneAndUpdate err (\<lambda>c. cid c = i) (apply_modifications md) False s))
    \<and> (\<forall>c d. fst (findOneAndUpdate err (\<lambda>c. cid c = i) (apply_modifications md) False s)
                 = Inr (Some c)
           \<longrightarrow> findById (cid c)
                 (snd (findOneAndUpdate err (\<lambda>c. cid c = i) (apply_modifications md) False s))
                 = Some d
           \<longrightarrow> numOfMessage c \<le> numOfMessage d)"
proof (intro conjI allI impI)
  show "store_counters_bounded
          (snd (findOneAndUpdate err (\<lambda>c. cid c = i) (apply_modifications md) False s))"
    using assms by (intro bounded_findOneAndUpdate counters_bounded_apply_modifications)
next
  fix c d
  assume r: "fst (findOneAndUpdate err (\<lambda>c. cid c = i) (apply_modifications md) False s)
               = Inr (Some c)"
    and d: "findById (cid c)
              (snd (findOneAndUpdate err (\<lambda>c. cid c = i) (apply_modifications md) False s))
              = Some d"
  from r have ne: "\<not> err" and c: "find (\<lambda>c. cid c = i) (conversations s) = Some c"
    by (auto simp: findOneAndUpdate_old split: if_splits)
  have "cid c = i" using c by (rule find_cid)
  then have "d = apply_modifications md c"
    using d ne c by (simp add: findOneAndUpdate_old findById_def find_cid_update_first)
  then show "numOfMessage c \<le> numOfMessage d" by simp
qed

lemma bounded_updateConversation:
  assumes "store_counters_bounded s"
  shows "store_counters_bounded
           (snd (updateConversation firstErr nextErr populateErr maxErr conversationId mods s))"
proof -
  have one: "store_counters_bounded
      (snd (done_cb populateErr maxErr mods
         (fst (findOneAndUpdate e (\<lambda>c. cid c = conversationId) (apply_modifications md) False t))
         (snd (findOneAndUpdate e (\<lambda>c. cid c = conversationId) (apply_modifications md) False t))))"
    if "store_counters_bounded t" for e md t
    using findOneAndUpdate_step [OF that, of e conversationId md]
    by (intro bounded_done_cb) auto
  have first: "store_counters_bounded
      (snd (findOneAndUpdate e (\<lambda>c. cid c = conversationId) (apply_modifications md) False s))"
    for e md
    using findOneAndUpdate_step [OF assms, of e conversationId md] by simp
  show ?thesis
    by (simp add: updateConversation_def Let_def case_prod_beta one [OF assms] one [OF first]
        assms split: sum.splits)
qed

text \<open>
  C7. The claim: the invariant \<^verbatim>\<open>numOfReadedMessage[u] <= numOfMessage\<close> for every member
  \<open>u\<close> is preserved by \<^verbatim>\<open>createMessage\<close>, \<^verbatim>\<open>markAllMessagesAsRead\<close>,
  \<^verbatim>\<open>addMemberToConversation\<close> and \<^verbatim>\<open>updateConversation\<close>. Stated for the members alone it
  is not preserved: on the store where \<open>user_b\<close>, not a member, has the counter 9 for 5
  messages, the invariant holds; \<^verbatim>\<open>addMemberToConversation\<close> makes him a member and
  \<^verbatim>\<open>$max\<close> keeps his 9.
\<close>

theorem addMemberToConversation_breaks_member_invariant:
  "read_invariant store_stale
   \<and> \<not> read_invariant (snd (addMemberToConversation False False ''c1'' user_b store_stale))"
  by (simp add: read_invariant_def members_bounded_def store_stale_def store0_def
      conversation0_def addMemberToConversation_def ensureObjectId_def findByIdAndUpdate_def
      findOneAndUpdate_def makeAllMessageReadedForAnUserHelper_def max_numOfReadedMessage_def
      addToSet_each_def called_def publish_def new_ObjectId_def is_hex_def lower_hex_def
      user_a_def user_b_def)

text \<open>
  C7, as amended. The bound taken over every counter a conversation holds, of a member or
  not, is preserved by each of the four operations, whatever their arguments and the
  outcome of their store calls; so, from a store where every counter is bounded, the
  invariant holds for every member of every conversation in every store that the four
  operations, run one after the other, reach.
\<close>

theorem read_counters_invariant:
  assumes "store_counters_bounded s0" and "reachable s0 s"
  shows "read_invariant s \<and> store_counters_bounded s"
proof -
  from assms(2) assms(1) have "store_counters_bounded s"
  proof (induction rule: reachable.induct)
    case start
    then show ?case .
  next
    case (createMessage s saveErr updateErr maxErr populateErr m)
    then show ?case by (simp add: bounded_createMessage)
  next
    case (markAllMessagesAsRead s findErr maxErr userIds conversationId)
    then show ?case by (simp add: bounded_markRead)
  next
    case (addMemberToConversation s updateErr maxErr conversationId userId)
    then show ?case by (simp add: bounded_addMember)
  next
    case (updateConversation s firstErr nextErr populateErr maxErr conversationId mods)
    then show ?case by (simp add: bounded_updateConversation)
  qed
  then show ?thesis by (simp add: store_bounded_invariant)
qed

theorem read_counters_invariant_witness:
  "store_counters_bounded store0
   \<and> reachable store0 (snd (addMemberToConversation False False ''c1'' user_b store0))
   \<and> read_invariant (snd (addMemberToConversation False False ''c1'' user_b store0))
   \<and> store_counters_bounded (snd (addMemberToConversation False False ''c1'' user_b store0))"
proof -
  have b: "store_counters_bounded store0"
    by (simp add: store_counters_bounded_def counters_bounded_def store0_def conversation0_def)
  have r: "reachable store0 (snd (addMemberToConversation False False ''c1'' user_b store0))"
    by (rule reachable.addMemberToConversation [OF reachable.start])
  from read_counters_invariant [OF b r] b r show ?thesis by blast
qed

end
